theory Spec2Isabelle
  imports Main
begin

section \<open>The stock monitor of firestorm\_monitor.py\<close>

text \<open>
  The program fetches a product catalogue, compares it with the snapshot saved by the
  previous run, posts one Discord message per kind of change and saves the fetched list
  as the new snapshot.  The catalogue fetch and the HTTP transport are the environment:
  the fetched list is an argument of \<open>main\<close>, and the environment record says whether a
  webhook is configured and which posts succeed.  Glyphs outside ASCII in the message
  texts of the source (emoji, the arrow of the stock change) are written in ASCII.
\<close>

subsection \<open>Product dictionaries\<close>

text \<open>
  A product is the dictionary built by \<open>get_all_products\<close>: the six keys
  \<open>title\<close>, \<open>sku\<close>, \<open>url\<close>, \<open>stock_qty\<close>, \<open>price\<close>, \<open>image\<close>, to which \<open>main\<close> may add
  the key \<open>old_stock\<close>.  The field \<open>old_stock\<close> is \<open>None\<close> while the key is absent.
  The type parameter is the type of the \<open>stock_qty\<close> entry: an \<open>int\<close> in a fetched
  product (the fetch always sets it), an \<open>int option\<close> in a dictionary loaded from the
  snapshot file, where the key may be missing and the source reads it with
  \<open>.get('stock_qty', 0)\<close>.
\<close>

record 'q item =
  title :: string
  sku :: string
  url :: string
  stock_qty :: 'q
  price :: string
  image_url :: string
  old_stock :: "int option"

type_synonym product = "int item"
type_synonym stored = "int option item"

text \<open>
  The snapshot is a dictionary from sku to stored product, in insertion order; lookup is
  \<open>map_of\<close>.  A dictionary read from the file has every key once.
\<close>

type_synonym snapshot = "(string \<times> stored) list"

text \<open>What \<open>json.dump\<close> followed by \<open>json.load\<close> makes of a product.\<close>

definition dumped :: "product \<Rightarrow> stored" where
  "dumped p = \<lparr>title = title p, sku = sku p, url = url p, stock_qty = Some (stock_qty p),
      price = price p, image_url = image_url p, old_stock = old_stock p\<rparr>"

subsection \<open>The snapshot file\<close>

datatype json_file = Missing | Corrupted | Content snapshot

text \<open>\<open>load_known_products\<close>: a missing or undecodable file is the empty dictionary.\<close>

fun load_known_products :: "json_file \<Rightarrow> snapshot" where
  "load_known_products Missing = []"
| "load_known_products Corrupted = []"
| "load_known_products (Content d) = d"

text \<open>
  Assignment to a dictionary key: the value of an existing key is replaced where the key
  stands, a new key goes to the end.
\<close>

fun dict_set :: "string \<Rightarrow> 'v \<Rightarrow> (string \<times> 'v) list \<Rightarrow> (string \<times> 'v) list" where
  "dict_set k v [] = [(k, v)]"
| "dict_set k v ((k', v') # kvs) =
     (if k' = k then (k, v) # kvs else (k', v') # dict_set k v kvs)"

text \<open>
  The comprehension \<open>{p['sku']: p for p in products if p['sku']}\<close> of
  \<open>save_known_products\<close>, with the dictionary built so far as accumulator.
\<close>

fun products_dict_from :: "snapshot \<Rightarrow> product list \<Rightarrow> snapshot" where
  "products_dict_from d [] = d"
| "products_dict_from d (p # ps) =
     (if sku p \<noteq> [] then products_dict_from (dict_set (sku p) (dumped p) d) ps
      else products_dict_from d ps)"

definition products_dict :: "product list \<Rightarrow> snapshot" where
  "products_dict products = products_dict_from [] products"

text \<open>
  \<open>save_known_products\<close> replaces the file by the dictionary.  The write itself is taken
  to succeed: the source only logs an I/O error of the write.
\<close>

definition save_known_products :: "product list \<Rightarrow> json_file" where
  "save_known_products products = Content (products_dict products)"

subsection \<open>Messages\<close>

record field =
  name :: string
  val :: string
  inline :: bool

record embed =
  embed_title :: string
  description :: "string option"
  embed_url :: "string option"
  color :: nat
  timestamp :: "string option"
  footer :: "string option"
  embed_fields :: "field list"
  thumbnail :: "string option"

text \<open>The body of a post is \<open>{"embeds": embeds}\<close>.\<close>

type_synonym message = "embed list"

record env =
  webhook :: "string option"
  utcnow :: string
  post_ok :: "message \<Rightarrow> bool"

text \<open>Decimal rendering of an integer, as an f-string does it.\<close>

fun digits :: "nat \<Rightarrow> string" where
  "digits n = (if n < 10 then [char_of (48 + n)] else digits (n div 10) @ [char_of (48 + n mod 10)])"

declare digits.simps [simp del]

definition str :: "int \<Rightarrow> string" where
  "str i = (if i < 0 then CHR ''-'' # digits (nat (- i)) else digits (nat i))"

text \<open>The embed of one product, the body of the loop over \<open>products[:10]\<close>.\<close>

definition product_embed :: "nat \<Rightarrow> product \<Rightarrow> embed" where
  "product_embed c product =
     \<lparr>embed_title = title product,
      description = None,
      embed_url = Some (url product),
      color = c,
      timestamp = None,
      footer = None,
      embed_fields =
        (case old_stock product of
           None \<Rightarrow> []
         | Some old \<Rightarrow>
             [\<lparr>name = ''Stock Change'',
               val = str old @ '' -> '' @ str (stock_qty product),
               inline = True\<rparr>]) @
        [\<lparr>name = ''Stock'', val = ''**'' @ str (stock_qty product) @ ''** available'', inline = True\<rparr>,
         \<lparr>name = ''Price'', val = price product, inline = True\<rparr>],
      thumbnail = (if image_url product \<noteq> [] then Some (image_url product) else None)\<rparr>"

definition summary_embed :: "env \<Rightarrow> string \<Rightarrow> string \<Rightarrow> nat \<Rightarrow> embed" where
  "summary_embed e t d c =
     \<lparr>embed_title = t, description = Some d, embed_url = None, color = c,
      timestamp = Some (utcnow e), footer = Some ''Firestorm Cards Monitor'',
      embed_fields = [], thumbnail = None\<rparr>"

definition embeds_of :: "env \<Rightarrow> string \<Rightarrow> string \<Rightarrow> nat \<Rightarrow> product list \<Rightarrow> message" where
  "embeds_of e t d c products = summary_embed e t d c # map (product_embed c) (take 10 products)"

text \<open>
  \<open>send_discord_notification\<close> returns the posts it made, each with its outcome: none
  without a webhook (\<open>None\<close> and the empty string are both false in the source's test),
  otherwise one, whose failure is caught and logged.
\<close>

definition configured :: "env \<Rightarrow> bool" where
  "configured e = (case webhook e of None \<Rightarrow> False | Some w \<Rightarrow> w \<noteq> [])"

definition send_discord_notification ::
    "env \<Rightarrow> string \<Rightarrow> string \<Rightarrow> nat \<Rightarrow> product list \<Rightarrow> (message \<times> bool) list" where
  "send_discord_notification e t d c products =
     (if \<not> configured e then []
      else let data = embeds_of e t d c products in [(data, post_ok e data)])"

subsection \<open>Classification\<close>

text \<open>
  The lists filled by the loop of \<open>main\<close>.  The loop assigns \<open>old_stock\<close> in the product
  dictionary itself, which is the object held by \<open>current_products\<close>; \<open>visited\<close> is
  that list as the loop leaves it.
\<close>

record changes =
  restocked :: "product list"
  increased_stock :: "product list"
  new_products :: "product list"
  visited :: "product list"

definition no_changes :: changes where
  "no_changes = \<lparr>restocked = [], increased_stock = [], new_products = [], visited = []\<rparr>"

text \<open>\<open>old_product.get('stock_qty', 0)\<close>\<close>

definition get_stock_qty :: "stored \<Rightarrow> int" where
  "get_stock_qty old_product = (case stock_qty old_product of None \<Rightarrow> 0 | Some n \<Rightarrow> n)"

text \<open>One pass of the loop body.\<close>

definition classify_step :: "snapshot \<Rightarrow> product \<Rightarrow> changes \<Rightarrow> changes" where
  "classify_step known_products product st =
     (if sku product = [] then st\<lparr>visited := visited st @ [product]\<rparr>
      else case map_of known_products (sku product) of
        None \<Rightarrow>
          if stock_qty product > 0
          then st\<lparr>new_products := new_products st @ [product],
                  visited := visited st @ [product]\<rparr>
          else st\<lparr>visited := visited st @ [product]\<rparr>
      | Some old_product \<Rightarrow>
          let old = get_stock_qty old_product; new = stock_qty product in
          if old = 0 \<and> new > 0
          then st\<lparr>restocked := restocked st @ [product\<lparr>old_stock := Some old\<rparr>],
                  visited := visited st @ [product\<lparr>old_stock := Some old\<rparr>]\<rparr>
          else if new > old \<and> old > 0
          then st\<lparr>increased_stock := increased_stock st @ [product\<lparr>old_stock := Some old\<rparr>],
                  visited := visited st @ [product\<lparr>old_stock := Some old\<rparr>]\<rparr>
          else st\<lparr>visited := visited st @ [product]\<rparr>)"

definition classify :: "snapshot \<Rightarrow> product list \<Rightarrow> changes" where
  "classify known_products current_products =
     fold (classify_step known_products) current_products no_changes"

subsection \<open>One cycle\<close>

text \<open>
  What a run of \<open>main\<close> leaves behind: the change lists (empty when the run returns
  before the loop), the posts made with their outcomes, and the snapshot file.
\<close>

record run =
  found :: changes
  posted :: "(message \<times> bool) list"
  snapshot_file :: json_file

definition main :: "env \<Rightarrow> product list \<Rightarrow> json_file \<Rightarrow> run" where
  "main e current_products f =
     (if current_products = [] then \<lparr>found = no_changes, posted = [], snapshot_file = f\<rparr>
      else
        let known_products = load_known_products f in
        if known_products = []
        then \<lparr>found = no_changes, posted = [],
              snapshot_file = save_known_products current_products\<rparr>
        else
          let ch = classify known_products current_products;
              p1 = (if restocked ch \<noteq> []
                    then send_discord_notification e ''RESTOCK ALERT!''
                           (digits (length (restocked ch)) @ '' product(s) back in stock!'')
                           3066993 (restocked ch)
                    else []);
              p2 = (if increased_stock ch \<noteq> []
                    then send_discord_notification e ''Stock Increased''
                           (digits (length (increased_stock ch)) @ '' product(s) got more stock!'')
                           3447003 (increased_stock ch)
                    else []);
              p3 = (if new_products ch \<noteq> []
                    then send_discord_notification e ''New Products Added!''
                           (digits (length (new_products ch)) @ '' new product(s) available!'')
                           15844367 (new_products ch)
                    else [])
          in \<lparr>found = ch, posted = p1 @ p2 @ p3,
               snapshot_file = save_known_products (visited ch)\<rparr>)"

subsection \<open>Sample data\<close>

text \<open>A product as the fetch builds it, and two environments, for concrete runs.\<close>

definition sample :: "string \<Rightarrow> int \<Rightarrow> product" where
  "sample s n = \<lparr>title = ''Card '' @ s, sku = s, url = ''/card'', stock_qty = n, price = ''1.00'',
      image_url = [], old_stock = None\<rparr>"

definition quiet :: env where
  "quiet = \<lparr>webhook = None, utcnow = [], post_ok = (\<lambda>m. True)\<rparr>"

definition loud :: env where
  "loud = \<lparr>webhook = Some ''https://hook'', utcnow = ''2024-01-01T00:00:00'',
      post_ok = (\<lambda>m. False)\<rparr>"

subsection \<open>The loop, record by record\<close>

text \<open>Appending the lists of two passes, for reasoning about the loop.\<close>

definition join :: "changes \<Rightarrow> changes \<Rightarrow> changes" where
  "join a b = \<lparr>restocked = restocked a @ restocked b,
      increased_stock = increased_stock a @ increased_stock b,
      new_products = new_products a @ new_products b,
      visited = visited a @ visited b\<rparr>"

text \<open>The product as the loop leaves it in \<open>current_products\<close>.\<close>

definition mark :: "snapshot \<Rightarrow> product \<Rightarrow> product" where
  "mark k p =
     (if sku p = [] then p
      else case map_of k (sku p) of
        None \<Rightarrow> p
      | Some old_product \<Rightarrow>
          let old = get_stock_qty old_product in
          if (old = 0 \<and> stock_qty p > 0) \<or> (stock_qty p > old \<and> old > 0)
          then p\<lparr>old_stock := Some old\<rparr> else p)"

text \<open>All change entries of a pass, in the order the messages are sent.\<close>

definition events :: "changes \<Rightarrow> product list" where
  "events c = restocked c @ increased_stock c @ new_products c"

text \<open>The bodies that \<open>main\<close> hands to the webhook for the change lists of a cycle.\<close>

definition messages_of :: "env \<Rightarrow> changes \<Rightarrow> message list" where
  "messages_of e ch =
     (if restocked ch \<noteq> []
      then [embeds_of e ''RESTOCK ALERT!''
              (digits (length (restocked ch)) @ '' product(s) back in stock!'') 3066993 (restocked ch)]
      else []) @
     (if increased_stock ch \<noteq> []
      then [embeds_of e ''Stock Increased''
              (digits (length (increased_stock ch)) @ '' product(s) got more stock!'') 3447003
              (increased_stock ch)]
      else []) @
     (if new_products ch \<noteq> []
      then [embeds_of e ''New Products Added!''
              (digits (length (new_products ch)) @ '' new product(s) available!'') 15844367
              (new_products ch)]
      else [])"

text \<open>Eleven products, all in stock.\<close>

definition eleven :: "product list" where
  "eleven = map (\<lambda>s. sample s 1)
     [''OP-01'', ''OP-02'', ''OP-03'', ''OP-04'', ''OP-05'', ''OP-06'', ''OP-07'', ''OP-08'',
      ''OP-09'', ''OP-10'', ''OP-11'']"

lemma join_no_changes [simp]: "join a no_changes = a" "join no_changes a = a"
  by (simp_all add: join_def no_changes_def)

lemma join_assoc: "join (join a b) c = join a (join b c)"
  by (simp add: join_def)

lemma classify_step_join:
  "classify_step k p st = join st (classify_step k p no_changes)"
  by (simp add: classify_step_def join_def no_changes_def Let_def split: option.split)

lemma fold_classify_step:
  "fold (classify_step k) ps st = join st (fold (classify_step k) ps no_changes)"
proof (induction ps arbitrary: st)
  case Nil
  show ?case by simp
next
  case (Cons p ps)
  have "fold (classify_step k) (p # ps) st = fold (classify_step k) ps (classify_step k p st)"
    by simp
  also have "\<dots> = join (classify_step k p st) (fold (classify_step k) ps no_changes)"
    by (rule Cons.IH)
  also have "\<dots> = join (join st (classify_step k p no_changes)) (fold (classify_step k) ps no_changes)"
    by (subst classify_step_join) (rule refl)
  also have "\<dots> = join st (join (classify_step k p no_changes) (fold (classify_step k) ps no_changes))"
    by (rule join_assoc)
  also have "join (classify_step k p no_changes) (fold (classify_step k) ps no_changes)
      = fold (classify_step k) (p # ps) no_changes"
    using Cons.IH [of "classify_step k p no_changes"] by simp
  finally show ?case .
qed

lemma classify_append: "classify k (xs @ ys) = join (classify k xs) (classify k ys)"
  unfolding classify_def fold_append comp_def
  by (rule fold_classify_step)

lemma classify_Nil [simp]: "classify k [] = no_changes"
  by (simp add: classify_def)

lemma classify_single: "classify k [p] = classify_step k p no_changes"
  by (simp add: classify_def)

lemma classify_Cons: "classify k (p # ps) = join (classify k [p]) (classify k ps)"
  using classify_append [of k "[p]" ps] by simp

lemma map_of_dict_set: "map_of (dict_set k v d) = (map_of d)(k \<mapsto> v)"
  by (induction d) (auto simp: fun_eq_iff)

lemma visited_step: "visited (classify_step k p no_changes) = [mark k p]"
  by (simp add: classify_step_def mark_def no_changes_def Let_def split: option.split)

lemma visited_classify: "visited (classify k ps) = map (mark k) ps"
proof (induction ps)
  case Nil
  show ?case by (simp add: no_changes_def)
next
  case (Cons p ps)
  show ?case
    by (subst classify_Cons) (simp add: join_def classify_single visited_step Cons.IH)
qed

lemma sku_mark [simp]: "sku (mark k p) = sku p"
  by (simp add: mark_def Let_def split: option.split)

lemma stock_qty_mark [simp]: "stock_qty (mark k p) = stock_qty p"
  by (simp add: mark_def Let_def split: option.split)

lemma classify_mid:
  "classify k (xs @ p # ys) = join (classify k xs) (join (classify k [p]) (classify k ys))"
  by (subst classify_append, subst classify_Cons) (rule refl)

lemma classify_known_record:
  assumes "sku p \<noteq> []" and "map_of k (sku p) = Some old_product"
  shows "classify k [p] =
     \<lparr>restocked = (if get_stock_qty old_product = 0 \<and> stock_qty p > 0
                    then [p\<lparr>old_stock := Some (get_stock_qty old_product)\<rparr>] else []),
      increased_stock = (if get_stock_qty old_product > 0 \<and> stock_qty p > get_stock_qty old_product
                    then [p\<lparr>old_stock := Some (get_stock_qty old_product)\<rparr>] else []),
      new_products = [],
      visited = [mark k p]\<rparr>"
  using assms
  by (auto simp add: classify_single classify_step_def mark_def no_changes_def Let_def)

lemma classify_unknown_record:
  assumes "sku p \<noteq> []" and "map_of k (sku p) = None"
  shows "classify k [p] =
     \<lparr>restocked = [], increased_stock = [],
      new_products = (if stock_qty p > 0 then [p] else []),
      visited = [p]\<rparr>"
  using assms
  by (simp add: classify_single classify_step_def no_changes_def)

lemma main_classifies:
  "current_products \<noteq> [] \<Longrightarrow> load_known_products f \<noteq> [] \<Longrightarrow>
   found (main e current_products f) = classify (load_known_products f) current_products"
  by (simp add: main_def Let_def)

lemma products_dict_from_append:
  "products_dict_from d (xs @ ys) = products_dict_from (products_dict_from d xs) ys"
  by (induction xs arbitrary: d) simp_all

lemma products_dict_from_other:
  "k \<notin> sku ` set ys \<Longrightarrow> map_of (products_dict_from d ys) k = map_of d k"
  by (induction ys arbitrary: d) (auto simp: map_of_dict_set)

lemma products_dict_from_last:
  assumes "sku p \<noteq> []" and "sku p \<notin> sku ` set ys"
  shows "map_of (products_dict_from d (xs @ p # ys)) (sku p) = Some (dumped p)"
  using assms
  by (simp add: products_dict_from_append products_dict_from_other map_of_dict_set)

lemma products_dict_from_dom:
  "k \<noteq> [] \<Longrightarrow> map_of (products_dict_from d ps) k \<noteq> None \<longleftrightarrow>
     map_of d k \<noteq> None \<or> k \<in> sku ` set ps"
  by (induction ps arbitrary: d) (auto simp: map_of_dict_set)

lemma mark_empty [simp]: "mark [] p = p"
  by (simp add: mark_def)

lemma mark_unknown: "map_of k (sku p) = None \<Longrightarrow> mark k p = p"
  by (simp add: mark_def)

lemma map_mark_empty [simp]: "map (mark []) ps = ps"
  by (induction ps) simp_all

lemma main_saves:
  "current_products \<noteq> [] \<Longrightarrow>
   snapshot_file (main e current_products f) =
     Content (products_dict (map (mark (load_known_products f)) current_products))"
  by (simp add: main_def Let_def save_known_products_def visited_classify)

lemma sku_image_mark [simp]: "sku ` mark k ` A = sku ` A"
  by (simp add: image_image)

lemma main_saves_last:
  assumes "sku p \<noteq> []" and "sku p \<notin> sku ` set ys"
  shows "map_of (load_known_products (snapshot_file (main e (xs @ p # ys) f))) (sku p)
       = Some (dumped (mark (load_known_products f) p))"
proof -
  have "map_of (products_dict_from [] (map (mark (load_known_products f)) xs @
           mark (load_known_products f) p # map (mark (load_known_products f)) ys))
           (sku (mark (load_known_products f) p))
       = Some (dumped (mark (load_known_products f) p))"
    by (rule products_dict_from_last) (use assms in simp_all)
  then show ?thesis
    by (simp add: main_saves products_dict_def)
qed

lemma main_saves_key:
  assumes "sku p \<noteq> []" and "p \<in> set current_products"
  shows "map_of (load_known_products (snapshot_file (main e current_products f))) (sku p) \<noteq> None"
proof -
  from assms(2) have ne: "current_products \<noteq> []" by auto
  have "sku p \<in> sku ` set (map (mark (load_known_products f)) current_products)"
    using assms(2) by (force simp: image_image)
  then have "map_of (products_dict_from [] (map (mark (load_known_products f)) current_products))
      (sku p) \<noteq> None"
    using products_dict_from_dom [OF assms(1)] by blast
  then show ?thesis
    by (simp add: main_saves [OF ne] products_dict_def)
qed

lemma products_dict_from_empty_key:
  "map_of (products_dict_from d ps) [] = map_of d []"
  by (induction ps arbitrary: d) (auto simp: map_of_dict_set)

lemma dict_set_fresh: "k \<notin> fst ` set d \<Longrightarrow> dict_set k v d = d @ [(k, v)]"
  by (induction d) auto

lemma products_dict_from_distinct:
  "\<forall>p\<in>set ps. sku p \<noteq> [] \<Longrightarrow> distinct (map sku ps) \<Longrightarrow>
   fst ` set d \<inter> sku ` set ps = {} \<Longrightarrow>
   products_dict_from d ps = d @ map (\<lambda>p. (sku p, dumped p)) ps"
proof (induction ps arbitrary: d)
  case Nil
  show ?case by simp
next
  case (Cons p ps)
  from Cons.prems have fresh: "sku p \<notin> fst ` set d" by auto
  have "products_dict_from (d @ [(sku p, dumped p)]) ps =
      (d @ [(sku p, dumped p)]) @ map (\<lambda>p. (sku p, dumped p)) ps"
    by (rule Cons.IH) (use Cons.prems in auto)
  then show ?case
    using Cons.prems fresh by (simp add: dict_set_fresh)
qed

lemma classify_all_quiet:
  "\<forall>p\<in>set ps. classify k [p] =
      \<lparr>restocked = [], increased_stock = [], new_products = [], visited = [p]\<rparr> \<Longrightarrow>
   classify k ps = \<lparr>restocked = [], increased_stock = [], new_products = [], visited = ps\<rparr>"
proof (induction ps)
  case Nil
  show ?case by (simp add: no_changes_def)
next
  case (Cons p ps)
  then show ?case
    by (subst classify_Cons) (simp add: join_def)
qed

lemma classify_empty_sku:
  "sku p = [] \<Longrightarrow> classify k [p] =
     \<lparr>restocked = [], increased_stock = [], new_products = [], visited = [p]\<rparr>"
  by (simp add: classify_single classify_step_def no_changes_def)

lemma classify_same_record:
  assumes "sku p \<noteq> []" and "map_of k (sku p) = Some (dumped p)"
  shows "classify k [p] =
     \<lparr>restocked = [], increased_stock = [], new_products = [], visited = [p]\<rparr>"
proof -
  have "get_stock_qty (dumped p) = stock_qty p"
    by (simp add: get_stock_qty_def dumped_def)
  then show ?thesis
    by (auto simp add: classify_known_record [OF assms] mark_def assms Let_def)
qed

lemma products_dict_distinct_entry:
  assumes "distinct (map sku (filter (\<lambda>p. sku p \<noteq> []) ps))"
    and "p \<in> set ps" and "sku p \<noteq> []"
  shows "map_of (products_dict ps) (sku p) = Some (dumped p)"
proof -
  from assms(2) obtain xs ys where ps: "ps = xs @ p # ys"
    by (auto simp: in_set_conv_decomp)
  have "sku p \<notin> sku ` set (filter (\<lambda>p. sku p \<noteq> []) ys)"
    using assms(1,3) by (auto simp: ps)
  then have "sku p \<notin> sku ` set ys"
    using assms(3) by auto
  then show ?thesis
    using assms(3) by (simp add: ps products_dict_def products_dict_from_last)
qed

lemma events_join: "events (join a b) = restocked a @ restocked b @ increased_stock a @
    increased_stock b @ new_products a @ new_products b"
  by (simp add: events_def join_def)

lemma events_single:
  "length (filter (\<lambda>q. sku q = k) (events (classify kn [p]))) \<le> (if sku p = k then 1 else 0)"
  by (simp add: events_def classify_single classify_step_def no_changes_def Let_def
      split: option.split)

lemma events_count:
  "length (filter (\<lambda>q. sku q = k) (events (classify kn ps)))
     \<le> length (filter (\<lambda>p. sku p = k) ps)"
proof (induction ps)
  case Nil
  show ?case by (simp add: events_def no_changes_def)
next
  case (Cons p ps)
  have "length (filter (\<lambda>q. sku q = k) (events (classify kn (p # ps)))) =
      length (filter (\<lambda>q. sku q = k) (events (classify kn [p]))) +
      length (filter (\<lambda>q. sku q = k) (events (classify kn ps)))"
    by (subst classify_Cons) (simp add: events_def join_def)
  then show ?case
    using events_single [of k kn p] Cons.IH by (simp split: if_splits)
qed

lemma send_outcome_free:
  "map fst (send_discord_notification (e\<lparr>post_ok := t\<rparr>) a b c ps)
     = map fst (send_discord_notification e a b c ps)"
  by (simp add: send_discord_notification_def configured_def embeds_of_def summary_embed_def Let_def)

lemma main_outcome_free:
  "map fst (posted (main (e\<lparr>post_ok := t\<rparr>) current_products f)) = map fst (posted (main e current_products f))
   \<and> found (main (e\<lparr>post_ok := t\<rparr>) current_products f) = found (main e current_products f)
   \<and> snapshot_file (main (e\<lparr>post_ok := t\<rparr>) current_products f) = snapshot_file (main e current_products f)"
  by (simp add: main_def Let_def send_outcome_free)

lemma posted_outcome:
  "\<forall>(m, ok) \<in> set (posted (main e current_products f)). ok = post_ok e m"
  by (auto simp: main_def Let_def send_discord_notification_def split: if_splits)

lemma main_posts:
  "configured e \<Longrightarrow>
   posted (main e current_products f) =
     map (\<lambda>m. (m, post_ok e m)) (messages_of e (found (main e current_products f)))"
  by (simp add: main_def Let_def send_discord_notification_def messages_of_def no_changes_def)

lemma send_configured:
  "configured e \<Longrightarrow> send_discord_notification e t d c products =
     [(embeds_of e t d c products, post_ok e (embeds_of e t d c products))]"
  by (simp add: send_discord_notification_def Let_def)

lemma eleven_new:
  "classify [(''Z'', dumped (sample ''Z'' 1))] eleven =
     \<lparr>restocked = [], increased_stock = [], new_products = eleven, visited = eleven\<rparr>"
  by (simp add: eleven_def classify_def classify_step_def no_changes_def sample_def)

lemma send_unconfigured:
  "\<not> configured e \<Longrightarrow> send_discord_notification e t d c products = []"
  by (simp add: send_discord_notification_def)

lemma main_posts_unconfigured:
  "\<not> configured e \<Longrightarrow> posted (main e current_products f) = []"
  by (simp add: main_def Let_def send_unconfigured)

lemma dumped_fields:
  "dumped p = \<lparr>title = title p, sku = sku p, url = url p, stock_qty = Some (stock_qty p),
      price = price p, image_url = image_url p, old_stock = old_stock p\<rparr>"
  by (simp add: dumped_def)

lemma keys_dict_set: "fst ` set (dict_set k v d) = insert k (fst ` set d)"
  by (simp add: dom_map_of_conv_image_fst [symmetric] map_of_dict_set)

lemma keys_products_dict_from:
  "fst ` set (products_dict_from d ps) = fst ` set d \<union> (sku ` set ps - {[]})"
  by (induction ps arbitrary: d) (auto simp: keys_dict_set)

lemma main_saves_keys:
  "current_products \<noteq> [] \<Longrightarrow>
   fst ` set (load_known_products (snapshot_file (main e current_products f)))
     = sku ` set current_products - {[]}"
  by (simp add: main_saves products_dict_def keys_products_dict_from image_image)

lemma last_occurrence:
  assumes "k \<in> sku ` set ps"
  obtains xs p ys where "ps = xs @ p # ys" and "sku p = k" and "k \<notin> sku ` set ys"
proof -
  from assms have "\<exists>p\<in>set ps. sku p = k" by auto
  then obtain xs p ys where split: "ps = xs @ p # ys" "sku p = k" "\<forall>q\<in>set ys. sku q \<noteq> k"
    by (auto dest!: split_list_last_prop)
  from split(3) have "k \<notin> sku ` set ys" by auto
  with split(1,2) show ?thesis by (rule that)
qed

lemma products_dict_marked:
  assumes "map_of (products_dict ps) = map_of k"
  shows "map_of (products_dict (map (mark k) ps)) = map_of (products_dict ps)"
proof
  fix s
  show "map_of (products_dict (map (mark k) ps)) s = map_of (products_dict ps) s"
  proof (cases "s \<in> sku ` set ps")
    case False
    then show ?thesis
      by (simp add: products_dict_def products_dict_from_other image_image)
  next
    case True
    then obtain xs p ys where ps: "ps = xs @ p # ys" and s: "sku p = s" and ys: "s \<notin> sku ` set ys"
      by (rule last_occurrence)
    show ?thesis
    proof (cases "s = []")
      case True
      then show ?thesis
        by (simp add: products_dict_def products_dict_from_empty_key)
    next
      case False
      have entry: "map_of (products_dict ps) (sku p) = Some (dumped p)"
        using products_dict_from_last [of p ys "[]" xs] False s ys
        by (simp add: ps products_dict_def)
      then have "map_of k (sku p) = Some (dumped p)"
        using assms by simp
      then have same: "mark k p = p"
        using False s by (auto simp: mark_def get_stock_qty_def dumped_def Let_def)
      have "map_of (products_dict_from [] (map (mark k) xs @ mark k p # map (mark k) ys))
          (sku (mark k p)) = Some (dumped (mark k p))"
        by (rule products_dict_from_last) (use False s ys in \<open>simp_all add: image_image\<close>)
      then show ?thesis
        using entry s by (simp add: ps products_dict_def same)
    qed
  qed
qed

lemma events_all_quiet:
  "\<forall>p\<in>set ps. events (classify k [p]) = [] \<Longrightarrow> events (classify k ps) = []"
proof (induction ps)
  case Nil
  show ?case by (simp add: events_def no_changes_def)
next
  case (Cons p ps)
  then show ?case
    by (subst classify_Cons) (simp add: events_def join_def)
qed

lemma mark_fields:
  "title (mark k p) = title p \<and> url (mark k p) = url p \<and> price (mark k p) = price p
   \<and> image_url (mark k p) = image_url p"
  by (simp add: mark_def Let_def split: option.split)

lemma saved_record_is_quiet:
  assumes "sku p \<noteq> []" and "map_of k (sku p) = Some (dumped (mark k0 p))"
  shows "classify k [p] =
     \<lparr>restocked = [], increased_stock = [], new_products = [], visited = [p]\<rparr>"
proof -
  have "get_stock_qty (dumped (mark k0 p)) = stock_qty p"
    by (simp add: get_stock_qty_def dumped_def)
  then show ?thesis
    by (auto simp add: classify_known_record [OF assms] mark_def assms Let_def)
qed

section \<open>The claims\<close>

text \<open>
  C8: when the fetch yields no record the cycle stops before the snapshot is even read:
  no change is found, nothing is posted and the snapshot file is the one the cycle
  started with, whatever it held.
\<close>

theorem C8_empty_fetch_aborts:
  "found (main e [] f) = no_changes \<and> posted (main e [] f) = [] \<and>
   snapshot_file (main e [] f) = f"
  by (simp add: main_def)

text \<open>
  C3: a fetched record \<open>p\<close> with a non-empty sku that the prior snapshot holds with the
  stored quantity \<open>old\<close> adds to the lists of the cycle, between what the records before it
  and after it add: exactly one entry to \<open>restocked\<close>, carrying \<open>old_stock = old\<close>, if and only
  if \<open>old = 0\<close> and the fetched quantity is positive; exactly one entry to
  \<open>increased_stock\<close>, carrying \<open>old_stock = old\<close>, if and only if \<open>old > 0\<close> and the fetched
  quantity is larger than \<open>old\<close>; nothing otherwise, and never an entry to \<open>new_products\<close>.
\<close>

theorem C3_known_record_events:
  assumes "sku p \<noteq> []"
    and "map_of (load_known_products f) (sku p) = Some old_product"
    and "stock_qty old_product = Some old"
  shows "restocked (found (main e (xs @ p # ys) f)) =
           restocked (classify (load_known_products f) xs) @
           (if old = 0 \<and> stock_qty p > 0 then [p\<lparr>old_stock := Some old\<rparr>] else []) @
           restocked (classify (load_known_products f) ys)
       \<and> increased_stock (found (main e (xs @ p # ys) f)) =
           increased_stock (classify (load_known_products f) xs) @
           (if old > 0 \<and> stock_qty p > old then [p\<lparr>old_stock := Some old\<rparr>] else []) @
           increased_stock (classify (load_known_products f) ys)
       \<and> new_products (found (main e (xs @ p # ys) f)) =
           new_products (classify (load_known_products f) xs) @
           new_products (classify (load_known_products f) ys)"
proof -
  from assms(2) have known: "load_known_products f \<noteq> []" by auto
  have old: "get_stock_qty old_product = old"
    using assms(3) by (simp add: get_stock_qty_def)
  have "found (main e (xs @ p # ys) f) = classify (load_known_products f) (xs @ p # ys)"
    using known by (simp add: main_classifies)
  then show ?thesis
    by (simp add: classify_mid classify_known_record [OF assms(1,2)] old join_def)
qed

theorem C3_known_record_events_witness:
  "restocked (found (main quiet [sample ''A'' 5] (Content [(''A'', dumped (sample ''A'' 0))])))
     = [(sample ''A'' 5)\<lparr>old_stock := Some 0\<rparr>]
   \<and> increased_stock (found (main quiet [sample ''A'' 5] (Content [(''A'', dumped (sample ''A'' 0))]))) = []
   \<and> new_products (found (main quiet [sample ''A'' 5] (Content [(''A'', dumped (sample ''A'' 0))]))) = []"
  using C3_known_record_events [of "sample ''A'' 5" "Content [(''A'', dumped (sample ''A'' 0))]"
      "dumped (sample ''A'' 0)" 0 quiet "[]" "[]"]
  by (simp add: sample_def dumped_def no_changes_def)

text \<open>
  C10: when the stored record of a known sku has no \<open>stock_qty\<close>, its old stock is read
  as 0: a fetched record of that sku with a positive quantity adds exactly one entry to
  \<open>restocked\<close>, with \<open>old_stock = 0\<close>, and nothing to the other lists; with a quantity that is
  not positive it adds nothing.  The loop has no failing branch for the missing key.
\<close>

theorem C10_missing_stock_is_zero:
  assumes "sku p \<noteq> []"
    and "map_of (load_known_products f) (sku p) = Some old_product"
    and "stock_qty old_product = None"
  shows "get_stock_qty old_product = 0
       \<and> restocked (found (main e (xs @ p # ys) f)) =
           restocked (classify (load_known_products f) xs) @
           (if stock_qty p > 0 then [p\<lparr>old_stock := Some 0\<rparr>] else []) @
           restocked (classify (load_known_products f) ys)
       \<and> increased_stock (found (main e (xs @ p # ys) f)) =
           increased_stock (classify (load_known_products f) xs) @
           increased_stock (classify (load_known_products f) ys)
       \<and> new_products (found (main e (xs @ p # ys) f)) =
           new_products (classify (load_known_products f) xs) @
           new_products (classify (load_known_products f) ys)"
proof -
  from assms(2) have known: "load_known_products f \<noteq> []" by auto
  have old: "get_stock_qty old_product = 0"
    using assms(3) by (simp add: get_stock_qty_def)
  have "found (main e (xs @ p # ys) f) = classify (load_known_products f) (xs @ p # ys)"
    using known by (simp add: main_classifies)
  then show ?thesis
    by (simp add: classify_mid classify_known_record [OF assms(1,2)] old join_def)
qed

theorem C10_missing_stock_is_zero_witness:
  "restocked (found (main quiet [sample ''A'' 5]
       (Content [(''A'', (dumped (sample ''A'' 3))\<lparr>stock_qty := None\<rparr>)])))
     = [(sample ''A'' 5)\<lparr>old_stock := Some 0\<rparr>]"
  using C10_missing_stock_is_zero [of "sample ''A'' 5"
      "Content [(''A'', (dumped (sample ''A'' 3))\<lparr>stock_qty := None\<rparr>)]"
      "(dumped (sample ''A'' 3))\<lparr>stock_qty := None\<rparr>" quiet "[]" "[]"]
  by (simp add: sample_def dumped_def no_changes_def)

text \<open>
  C4, as the code has it: when the prior snapshot is not empty, a fetched record \<open>p\<close> with a
  non-empty sku that the snapshot does not hold adds exactly one entry, itself, to
  \<open>new_products\<close> of the cycle if and only if its quantity is positive, and nothing to the
  other lists; when the prior snapshot is empty the cycle is a first run and has no change
  entry at all.  In both cases the snapshot that the cycle saves has the sku of \<open>p\<close> among
  its keys; the entry holds the fields of \<open>p\<close> as fetched when no later record of the fetch
  has the same sku, and the fields of the last record \<open>q\<close> with that sku otherwise.
\<close>

theorem C4_unknown_record:
  assumes "sku p \<noteq> []" and "map_of (load_known_products f) (sku p) = None"
  shows "(load_known_products f \<noteq> [] \<longrightarrow>
           new_products (found (main e (xs @ p # ys) f)) =
             new_products (classify (load_known_products f) xs) @
             (if stock_qty p > 0 then [p] else []) @
             new_products (classify (load_known_products f) ys)
         \<and> restocked (found (main e (xs @ p # ys) f)) =
             restocked (classify (load_known_products f) xs) @
             restocked (classify (load_known_products f) ys)
         \<and> increased_stock (found (main e (xs @ p # ys) f)) =
             increased_stock (classify (load_known_products f) xs) @
             increased_stock (classify (load_known_products f) ys))
       \<and> (load_known_products f = [] \<longrightarrow> events (found (main e (xs @ p # ys) f)) = [])
       \<and> sku p \<in> fst ` set (load_known_products (snapshot_file (main e (xs @ p # ys) f)))
       \<and> (sku p \<notin> sku ` set ys \<longrightarrow>
            map_of (load_known_products (snapshot_file (main e (xs @ p # ys) f))) (sku p)
              = Some \<lparr>title = title p, sku = sku p, url = url p,
                  stock_qty = Some (stock_qty p), price = price p, image_url = image_url p,
                  old_stock = old_stock p\<rparr>)
       \<and> (ys = us @ q # vs \<and> sku q = sku p \<and> sku p \<notin> sku ` set vs \<longrightarrow>
            map_of (load_known_products (snapshot_file (main e (xs @ p # ys) f))) (sku p)
              = Some \<lparr>title = title q, sku = sku q, url = url q,
                  stock_qty = Some (stock_qty q), price = price q, image_url = image_url q,
                  old_stock = old_stock q\<rparr>)"
proof -
  have ev: "classify (load_known_products f) (xs @ p # ys) =
      join (classify (load_known_products f) xs)
        (join \<lparr>restocked = [], increased_stock = [],
               new_products = (if stock_qty p > 0 then [p] else []), visited = [p]\<rparr>
           (classify (load_known_products f) ys))"
    by (simp add: classify_mid classify_unknown_record [OF assms])
  have first: "load_known_products f = [] \<longrightarrow> events (found (main e (xs @ p # ys) f)) = []"
    by (simp add: main_def events_def no_changes_def)
  have key: "sku p \<in> fst ` set (load_known_products (snapshot_file (main e (xs @ p # ys) f)))"
    using assms(1) by (simp add: main_saves_keys)
  have last: "sku p \<notin> sku ` set ys \<longrightarrow>
      map_of (load_known_products (snapshot_file (main e (xs @ p # ys) f))) (sku p) = Some (dumped p)"
    using main_saves_last [OF assms(1), of ys e xs f] mark_unknown [OF assms(2)] by simp
  have later: "map_of (load_known_products (snapshot_file (main e (xs @ p # ys) f))) (sku p)
      = Some (dumped q)"
    if "ys = us @ q # vs" and "sku q = sku p" and "sku p \<notin> sku ` set vs"
  proof -
    have "map_of (load_known_products (snapshot_file (main e ((xs @ p # us) @ q # vs) f))) (sku q)
        = Some (dumped (mark (load_known_products f) q))"
      by (rule main_saves_last) (use that assms(1) in simp_all)
    moreover have "mark (load_known_products f) q = q"
      using assms(2) that(2) by (simp add: mark_unknown)
    ultimately show ?thesis using that by simp
  qed
  show ?thesis
    using first key last later by (simp add: ev join_def main_classifies dumped_fields)
qed

theorem C4_unknown_record_witness:
  "new_products (found (main quiet [sample ''A'' 0, sample ''C'' 5]
       (Content [(''B'', dumped (sample ''B'' 1))]))) = [sample ''C'' 5]
   \<and> restocked (found (main quiet [sample ''A'' 0, sample ''C'' 5]
       (Content [(''B'', dumped (sample ''B'' 1))]))) = []
   \<and> map_of (load_known_products (snapshot_file
        (main quiet [sample ''A'' 0, sample ''C'' 5] (Content [(''B'', dumped (sample ''B'' 1))])))) ''A''
       = Some \<lparr>title = ''Card A'', sku = ''A'', url = ''/card'', stock_qty = Some 0,
            price = ''1.00'', image_url = [], old_stock = None\<rparr>
   \<and> map_of (load_known_products (snapshot_file
        (main quiet [sample ''A'' 0, sample ''A'' 5] (Content [(''B'', dumped (sample ''B'' 1))])))) ''A''
       = Some \<lparr>title = ''Card A'', sku = ''A'', url = ''/card'', stock_qty = Some 5,
            price = ''1.00'', image_url = [], old_stock = None\<rparr>"
  using C4_unknown_record [where p = "sample ''A'' 0" and f = "Content [(''B'', dumped (sample ''B'' 1))]"
      and xs = "[]" and ys = "[sample ''C'' 5]" and e = quiet and us = "[]" and vs = "[]"
      and q = "sample ''C'' 5"]
    C4_unknown_record [where p = "sample ''C'' 5" and f = "Content [(''B'', dumped (sample ''B'' 1))]"
      and xs = "[sample ''A'' 0]" and ys = "[]" and e = quiet and us = "[]" and vs = "[]"
      and q = "sample ''C'' 5"]
    C4_unknown_record [where p = "sample ''A'' 0" and f = "Content [(''B'', dumped (sample ''B'' 1))]"
      and xs = "[]" and ys = "[sample ''A'' 5]" and e = quiet and us = "[]" and vs = "[]"
      and q = "sample ''A'' 5"]
  by (simp add: sample_def classify_def classify_step_def no_changes_def)

text \<open>
  C4 as stated fails twice.  On a first run a record with an unknown sku and 5 in stock
  gives no entry in \<open>new_products\<close>.  And a new record with no stock that is followed by a
  record of the same sku is not in the saved snapshot: the entry of the sku holds the later
  record, with 5 in stock.
\<close>

theorem C4_first_run_and_repeated_sku:
  "map_of (load_known_products Missing) (sku (sample ''A'' 5)) = None
   \<and> new_products (found (main loud [sample ''A'' 5] Missing)) = []
   \<and> map_of [(''B'', dumped (sample ''B'' 1))] (sku (sample ''A'' 0)) = None
   \<and> map_of (load_known_products (snapshot_file
        (main loud [sample ''A'' 0, sample ''A'' 5] (Content [(''B'', dumped (sample ''B'' 1))]))))
        ''A''
       = Some \<lparr>title = ''Card A'', sku = ''A'', url = ''/card'', stock_qty = Some 5,
            price = ''1.00'', image_url = [], old_stock = None\<rparr>"
  by (simp add: main_def save_known_products_def products_dict_def sample_def Let_def
      classify_def classify_step_def no_changes_def dumped_def send_discord_notification_def
      configured_def loud_def)

text \<open>
  C2, as the code has it: every fetched record is classified on its own, so the cycle has
  at most as many change entries for a sku as the fetch has records of that sku (at most
  one for a sku that occurs once); the changes of a fetch are those of the records before
  \<open>p\<close>, of \<open>p\<close> and of the records after \<open>p\<close>, appended; and the saved snapshot holds under
  a non-empty sku the last fetched record of that sku, as the loop left it.
\<close>

theorem C2_events_per_record:
  "length (filter (\<lambda>q. sku q = k) (events (found (main e current_products f))))
     \<le> length (filter (\<lambda>p. sku p = k) current_products)
   \<and> (load_known_products f \<noteq> [] \<longrightarrow>
        found (main e (xs @ p # ys) f) =
          join (classify (load_known_products f) xs)
            (join (classify (load_known_products f) [p]) (classify (load_known_products f) ys)))
   \<and> (sku p \<noteq> [] \<and> sku p \<notin> sku ` set ys \<longrightarrow>
        map_of (load_known_products (snapshot_file (main e (xs @ p # ys) f))) (sku p)
          = Some (dumped (mark (load_known_products f) p)))"
proof -
  have "found (main e current_products f) = no_changes \<or>
      found (main e current_products f) = classify (load_known_products f) current_products"
    by (simp add: main_def Let_def)
  then have a: "length (filter (\<lambda>q. sku q = k) (events (found (main e current_products f))))
     \<le> length (filter (\<lambda>p. sku p = k) current_products)"
    using events_count [of k "load_known_products f" current_products]
    by (auto simp: events_def no_changes_def)
  show ?thesis
    using a by (simp add: main_classifies classify_mid main_saves_last)
qed

theorem C2_events_per_record_witness:
  "length (filter (\<lambda>q. sku q = ''A'')
      (events (found (main quiet [sample ''A'' 5, sample ''B'' 7] (Content [(''A'', dumped (sample ''A'' 0))])))))
     \<le> 1
   \<and> map_of (load_known_products (snapshot_file
        (main quiet [sample ''A'' 5, sample ''B'' 7] (Content [(''A'', dumped (sample ''A'' 0))])))) ''B''
      = Some (dumped (sample ''B'' 7))"
  using C2_events_per_record [of "''A''" quiet "[sample ''A'' 5, sample ''B'' 7]"
      "Content [(''A'', dumped (sample ''A'' 0))]" "[sample ''A'' 5]" "sample ''B'' 7" "[]"]
  by (simp add: sample_def mark_def main_def Let_def classify_def classify_step_def
      no_changes_def events_def get_stock_qty_def dumped_def join_def
      save_known_products_def products_dict_def)

text \<open>
  C2 as stated fails: two fetched records with the same new sku give two entries in
  \<open>new_products\<close>, and the first occurrence is classified like the last.
\<close>

theorem C2_duplicate_sku_two_events:
  "new_products (found (main quiet [sample ''A'' 5, sample ''A'' 7]
       (Content [(''B'', dumped (sample ''B'' 1))])))
     = [sample ''A'' 5, sample ''A'' 7]"
  by (simp add: main_def Let_def classify_def classify_step_def no_changes_def sample_def)

text \<open>
  C5, as the code has it: on a non-empty fetch with an empty prior snapshot nothing is
  found and nothing is posted, and the saved snapshot is the fetched list indexed by sku:
  its keys are exactly the non-empty skus of the fetch, the entry of a sku holds the fields
  of the last fetched record with that sku, and when all skus are non-empty and pairwise
  distinct the snapshot holds all records, in fetch order.
\<close>

theorem C5_first_run_seeds:
  assumes "load_known_products f = []"
  shows "found (main e (xs @ p # ys) f) = no_changes
       \<and> posted (main e (xs @ p # ys) f) = []
       \<and> fst ` set (load_known_products (snapshot_file (main e (xs @ p # ys) f)))
           = sku ` set (xs @ p # ys) - {[]}
       \<and> (sku p \<noteq> [] \<and> sku p \<notin> sku ` set ys \<longrightarrow>
            map_of (load_known_products (snapshot_file (main e (xs @ p # ys) f))) (sku p)
              = Some \<lparr>title = title p, sku = sku p, url = url p,
                  stock_qty = Some (stock_qty p), price = price p, image_url = image_url p,
                  old_stock = old_stock p\<rparr>)
       \<and> ((\<forall>q\<in>set (xs @ p # ys). sku q \<noteq> []) \<and> distinct (map sku (xs @ p # ys)) \<longrightarrow>
            load_known_products (snapshot_file (main e (xs @ p # ys) f))
              = map (\<lambda>q. (sku q, \<lparr>title = title q, sku = sku q, url = url q,
                  stock_qty = Some (stock_qty q), price = price q, image_url = image_url q,
                  old_stock = old_stock q\<rparr>)) (xs @ p # ys))"
proof -
  have run: "main e (xs @ p # ys) f =
      \<lparr>found = no_changes, posted = [],
       snapshot_file = Content (products_dict (xs @ p # ys))\<rparr>"
    using assms by (simp add: main_def save_known_products_def)
  have keys: "fst ` set (products_dict (xs @ p # ys)) = sku ` set (xs @ p # ys) - {[]}"
    by (simp add: products_dict_def keys_products_dict_from)
  have last: "sku p \<noteq> [] \<and> sku p \<notin> sku ` set ys \<longrightarrow>
      map_of (products_dict (xs @ p # ys)) (sku p) = Some (dumped p)"
    by (simp add: products_dict_def products_dict_from_last)
  have all: "(\<forall>q\<in>set (xs @ p # ys). sku q \<noteq> []) \<and> distinct (map sku (xs @ p # ys)) \<longrightarrow>
      products_dict (xs @ p # ys) = map (\<lambda>q. (sku q, dumped q)) (xs @ p # ys)"
    using products_dict_from_distinct [of "xs @ p # ys" "[]"] by (simp add: products_dict_def)
  show ?thesis
    using keys last all unfolding run by (simp add: dumped_fields)
qed

theorem C5_first_run_seeds_witness:
  "found (main loud [sample ''A'' 5, sample [] 3, sample ''A'' 7, sample ''B'' 0] Corrupted) = no_changes
   \<and> posted (main loud [sample ''A'' 5, sample [] 3, sample ''A'' 7, sample ''B'' 0] Corrupted) = []
   \<and> map_of (load_known_products (snapshot_file
        (main loud [sample ''A'' 5, sample [] 3, sample ''A'' 7, sample ''B'' 0] Corrupted))) ''A''
       = Some \<lparr>title = ''Card A'', sku = ''A'', url = ''/card'', stock_qty = Some 7,
            price = ''1.00'', image_url = [], old_stock = None\<rparr>
   \<and> load_known_products (snapshot_file (main loud [sample ''A'' 5, sample ''B'' 0] Missing))
       = [(''A'', \<lparr>title = ''Card A'', sku = ''A'', url = ''/card'', stock_qty = Some 5,
            price = ''1.00'', image_url = [], old_stock = None\<rparr>),
          (''B'', \<lparr>title = ''Card B'', sku = ''B'', url = ''/card'', stock_qty = Some 0,
            price = ''1.00'', image_url = [], old_stock = None\<rparr>)]"
  using C5_first_run_seeds [where f = Corrupted and e = loud
      and xs = "[sample ''A'' 5, sample [] 3]" and p = "sample ''A'' 7" and ys = "[sample ''B'' 0]"]
    C5_first_run_seeds [where f = Missing and e = loud
      and xs = "[]" and p = "sample ''A'' 5" and ys = "[sample ''B'' 0]"]
  by (simp add: sample_def)

text \<open>
  C5 as stated fails: a fetched record whose sku is empty is not persisted, so a first
  run on one such record saves an empty snapshot.
\<close>

theorem C5_empty_sku_not_persisted:
  "load_known_products (snapshot_file (main quiet [sample [] 5] Missing)) = []"
  by (simp add: main_def save_known_products_def products_dict_def sample_def)

text \<open>
  C6, as the code has it: when the dictionary of the fetch equals the prior snapshot as a
  mapping, the snapshot left by the cycle equals the prior one as a mapping, and the entry
  of a sku holds the fields of the last fetched record with that sku.  The cycle finds no
  change and posts nothing when, in addition, no non-empty sku occurs twice in the fetch.
\<close>

theorem C6_same_fetch_is_silent:
  assumes "map_of (products_dict current_products) = map_of (load_known_products f)"
  shows "map_of (load_known_products (snapshot_file (main e current_products f)))
           = map_of (load_known_products f)
       \<and> (distinct (map sku (filter (\<lambda>p. sku p \<noteq> []) current_products)) \<longrightarrow>
            restocked (found (main e current_products f)) = []
          \<and> increased_stock (found (main e current_products f)) = []
          \<and> new_products (found (main e current_products f)) = []
          \<and> posted (main e current_products f) = [])
       \<and> (current_products = xs @ p # ys \<and> sku p \<noteq> [] \<and> sku p \<notin> sku ` set ys \<longrightarrow>
            map_of (load_known_products (snapshot_file (main e current_products f))) (sku p)
              = Some \<lparr>title = title p, sku = sku p, url = url p,
                  stock_qty = Some (stock_qty p), price = price p, image_url = image_url p,
                  old_stock = old_stock p\<rparr>)"
proof -
  have snap: "map_of (load_known_products (snapshot_file (main e current_products f)))
           = map_of (load_known_products f)"
  proof (cases "current_products = []")
    case True
    then show ?thesis by (simp add: main_def)
  next
    case False
    then show ?thesis
      using products_dict_marked [OF assms] assms by (simp add: main_saves)
  qed
  have silent: "restocked (found (main e current_products f)) = []
          \<and> increased_stock (found (main e current_products f)) = []
          \<and> new_products (found (main e current_products f)) = []
          \<and> posted (main e current_products f) = []"
    if d: "distinct (map sku (filter (\<lambda>p. sku p \<noteq> []) current_products))"
  proof (cases "current_products = [] \<or> load_known_products f = []")
    case True
    then show ?thesis
      by (auto simp: main_def no_changes_def)
  next
    case False
    have "\<forall>p\<in>set current_products. classify (load_known_products f) [p] =
        \<lparr>restocked = [], increased_stock = [], new_products = [], visited = [p]\<rparr>"
    proof
      fix p assume p: "p \<in> set current_products"
      show "classify (load_known_products f) [p] =
        \<lparr>restocked = [], increased_stock = [], new_products = [], visited = [p]\<rparr>"
      proof (cases "sku p = []")
        case True
        then show ?thesis by (rule classify_empty_sku)
      next
        case False
        have "map_of (load_known_products f) (sku p) = Some (dumped p)"
          using products_dict_distinct_entry [OF d p False] assms by simp
        with False show ?thesis by (rule classify_same_record)
      qed
    qed
    then have "classify (load_known_products f) current_products =
        \<lparr>restocked = [], increased_stock = [], new_products = [], visited = current_products\<rparr>"
      by (rule classify_all_quiet)
    then show ?thesis
      using False by (simp add: main_def Let_def)
  qed
  have entry: "map_of (load_known_products (snapshot_file (main e current_products f))) (sku p)
      = Some (dumped p)"
    if "current_products = xs @ p # ys" "sku p \<noteq> []" "sku p \<notin> sku ` set ys"
  proof -
    have "map_of (products_dict current_products) (sku p) = Some (dumped p)"
      using that by (simp add: products_dict_def products_dict_from_last)
    then show ?thesis using snap assms by simp
  qed
  show ?thesis
    using snap silent entry by (simp add: dumped_fields)
qed

theorem C6_same_fetch_is_silent_witness:
  "posted (main loud [sample ''A'' 5, sample [] 2] (Content [(''A'', dumped (sample ''A'' 5))])) = []
   \<and> restocked (found (main loud [sample ''A'' 5, sample [] 2]
        (Content [(''A'', dumped (sample ''A'' 5))]))) = []
   \<and> map_of (load_known_products (snapshot_file (main loud [sample ''A'' 5, sample [] 2]
        (Content [(''A'', dumped (sample ''A'' 5))]))))
      = map_of [(''A'', dumped (sample ''A'' 5))]
   \<and> map_of (load_known_products (snapshot_file (main loud [sample ''A'' 5, sample [] 2]
        (Content [(''A'', dumped (sample ''A'' 5))])))) ''A''
      = Some \<lparr>title = ''Card A'', sku = ''A'', url = ''/card'', stock_qty = Some 5,
            price = ''1.00'', image_url = [], old_stock = None\<rparr>
   \<and> map_of (load_known_products (snapshot_file (main loud [sample ''A'' 5, sample ''A'' 0]
        (Content [(''A'', dumped (sample ''A'' 0))])))) ''A''
      = Some \<lparr>title = ''Card A'', sku = ''A'', url = ''/card'', stock_qty = Some 0,
            price = ''1.00'', image_url = [], old_stock = None\<rparr>"
  using C6_same_fetch_is_silent [where current_products = "[sample ''A'' 5, sample [] 2]"
      and f = "Content [(''A'', dumped (sample ''A'' 5))]" and e = loud and xs = "[]"
      and p = "sample ''A'' 5" and ys = "[sample [] 2]"]
    C6_same_fetch_is_silent [where current_products = "[sample ''A'' 5, sample ''A'' 0]"
      and f = "Content [(''A'', dumped (sample ''A'' 0))]" and e = loud and xs = "[sample ''A'' 5]"
      and p = "sample ''A'' 0" and ys = "[]"]
  by (simp add: sample_def products_dict_def dumped_def)

text \<open>
  C6 as stated fails: the dictionary of the fetch below equals the prior snapshot, because
  the second record of sku A overwrites the first, yet the first record is classified and
  reported as restocked.
\<close>

theorem C6_duplicate_sku_restock:
  "map_of (products_dict [sample ''A'' 5, sample ''A'' 0])
     = map_of (load_known_products (Content [(''A'', dumped (sample ''A'' 0))]))
   \<and> restocked (found (main quiet [sample ''A'' 5, sample ''A'' 0]
         (Content [(''A'', dumped (sample ''A'' 0))])))
     = [(sample ''A'' 5)\<lparr>old_stock := Some 0\<rparr>]"
  by (simp add: main_def Let_def classify_def classify_step_def no_changes_def sample_def
      products_dict_def get_stock_qty_def dumped_def)

text \<open>
  C7 on the code: a record that is reported as restocked is saved with the \<open>old_stock\<close>
  entry that the loop wrote into it, so the saved record differs from the fetched one.
\<close>

theorem C7_old_stock_is_persisted:
  "load_known_products (snapshot_file
      (main quiet [sample ''A'' 5] (Content [(''A'', dumped (sample ''A'' 0))])))
     = [(''A'', (dumped (sample ''A'' 5))\<lparr>old_stock := Some 0\<rparr>)]
   \<and> (dumped (sample ''A'' 5))\<lparr>old_stock := Some 0\<rparr> \<noteq> dumped (sample ''A'' 5)"
  by (simp add: main_def save_known_products_def products_dict_def sample_def Let_def
      classify_def classify_step_def no_changes_def get_stock_qty_def dumped_def)

text \<open>
  C1, as the code has it: one call of \<open>send_discord_notification\<close> makes exactly one post
  when a webhook is configured and none otherwise.  The body of the post is the summary
  embed followed by one embed for each of the first ten products, in order, so
  \<open>min 10 n\<close> detail embeds for \<open>n\<close> products; products after the tenth are in no body.  A
  cycle posts one such body for each non-empty change list, at most three, and nothing
  without a webhook.
\<close>

theorem C1_one_message_first_ten:
  "(configured e \<longrightarrow>
      send_discord_notification e t d c products =
        [(embeds_of e t d c products, post_ok e (embeds_of e t d c products))])
   \<and> (\<not> configured e \<longrightarrow> send_discord_notification e t d c products = [])
   \<and> hd (embeds_of e t d c products) = summary_embed e t d c
   \<and> tl (embeds_of e t d c products) = map (product_embed c) (take 10 products)
   \<and> length (tl (embeds_of e t d c products)) = min 10 (length products)
   \<and> (configured e \<longrightarrow>
        posted (main e current_products f) =
          map (\<lambda>m. (m, post_ok e m)) (messages_of e (found (main e current_products f))))
   \<and> (\<not> configured e \<longrightarrow> posted (main e current_products f) = [])
   \<and> length (messages_of e (found (main e current_products f))) \<le> 3"
  by (simp add: send_configured send_unconfigured main_posts_unconfigured embeds_of_def
      main_posts messages_of_def min.commute)

theorem C1_one_message_first_ten_witness:
  "map (length \<circ> tl \<circ> fst) (send_discord_notification loud ''New Products Added!''
      ''11 new product(s) available!'' 15844367 eleven) = [10]
   \<and> send_discord_notification quiet ''New Products Added!''
      ''11 new product(s) available!'' 15844367 eleven = []"
  using C1_one_message_first_ten [of loud "''New Products Added!''"
      "''11 new product(s) available!''" 15844367 eleven "[]" Missing]
    C1_one_message_first_ten [of quiet "''New Products Added!''"
      "''11 new product(s) available!''" 15844367 eleven "[]" Missing]
  by (simp add: loud_def quiet_def configured_def eleven_def)

text \<open>
  C1 as stated fails: eleven new products give one post with ten detail embeds, not two
  posts, and the eleventh product is in no embed.
\<close>

theorem C1_eleventh_event_dropped:
  "length (new_products (found (main loud eleven (Content [(''Z'', dumped (sample ''Z'' 1))])))) = 11
   \<and> map (length \<circ> tl \<circ> fst)
        (posted (main loud eleven (Content [(''Z'', dumped (sample ''Z'' 1))]))) = [10]
   \<and> ''Card OP-11'' \<in> title ` set eleven
   \<and> ''Card OP-11'' \<notin> embed_title `
        set (concat (map fst (posted (main loud eleven (Content [(''Z'', dumped (sample ''Z'' 1))])))))"
proof -
  have ne: "eleven \<noteq> []" by (simp add: eleven_def)
  have run: "main loud eleven (Content [(''Z'', dumped (sample ''Z'' 1))]) =
      \<lparr>found = classify [(''Z'', dumped (sample ''Z'' 1))] eleven,
       posted = send_discord_notification loud ''New Products Added!''
          (digits (length eleven) @ '' new product(s) available!'') 15844367 eleven,
       snapshot_file = save_known_products eleven\<rparr>"
    using ne by (simp add: main_def Let_def eleven_new)
  have msg: "send_discord_notification loud t d c eleven =
      [(summary_embed loud t d c # map (product_embed c) (take 10 eleven), False)]" for t d c
    by (simp add: send_discord_notification_def configured_def loud_def embeds_of_def Let_def)
  have titles: "embed_title ` set (map (product_embed c) (take 10 eleven)) =
      {''Card OP-01'', ''Card OP-02'', ''Card OP-03'', ''Card OP-04'', ''Card OP-05'',
       ''Card OP-06'', ''Card OP-07'', ''Card OP-08'', ''Card OP-09'', ''Card OP-10''}" for c
    by (simp add: eleven_def product_embed_def sample_def)
  have "''Card OP-11'' \<in> title ` set eleven"
    by (simp add: eleven_def sample_def)
  moreover have "length eleven = 11"
    by (simp add: eleven_def)
  ultimately show ?thesis
    using titles by (simp add: run msg eleven_new summary_embed_def)
qed

text \<open>
  C9, as the code has it: the outcome of the posts changes neither which bodies the cycle
  posts nor what it saves.  Whatever function \<open>t\<close> decides success, the bodies posted are
  the same, with a webhook they are all the bodies of the cycle's change lists, and the
  snapshot file is the same.  For a non-empty fetch its keys are the non-empty skus of the
  fetch, and the entry of a sku has the title, sku, url, quantity, price and image of the
  last fetched record \<open>p\<close> with that sku.  When such a record \<open>p\<close> is fetched again in the
  next cycle, at any place of any fetch, it adds no change entry; and a next cycle on the
  same fetch has no change entry at all when no non-empty sku occurs twice in it.
\<close>

theorem C9_failed_post_does_not_block:
  "map fst (posted (main (e\<lparr>post_ok := t\<rparr>) current_products f))
     = map fst (posted (main e current_products f))
   \<and> (configured e \<longrightarrow>
        map fst (posted (main (e\<lparr>post_ok := t\<rparr>) current_products f))
          = messages_of e (found (main e current_products f)))
   \<and> snapshot_file (main (e\<lparr>post_ok := t\<rparr>) current_products f)
       = snapshot_file (main e current_products f)
   \<and> (current_products \<noteq> [] \<longrightarrow>
        fst ` set (load_known_products (snapshot_file (main (e\<lparr>post_ok := t\<rparr>) current_products f)))
          = sku ` set current_products - {[]})
   \<and> (current_products = xs @ p # ys \<and> sku p \<noteq> [] \<and> sku p \<notin> sku ` set ys \<longrightarrow>
        (\<exists>s. map_of (load_known_products
                 (snapshot_file (main (e\<lparr>post_ok := t\<rparr>) current_products f))) (sku p) = Some s
             \<and> title s = title p \<and> sku s = sku p \<and> url s = url p
             \<and> stock_qty s = Some (stock_qty p) \<and> price s = price p
             \<and> image_url s = image_url p)
        \<and> restocked (found (main e' (us @ p # vs)
              (snapshot_file (main (e\<lparr>post_ok := t\<rparr>) current_products f)))) =
            restocked (classify (load_known_products
              (snapshot_file (main (e\<lparr>post_ok := t\<rparr>) current_products f))) us) @
            restocked (classify (load_known_products
              (snapshot_file (main (e\<lparr>post_ok := t\<rparr>) current_products f))) vs)
        \<and> increased_stock (found (main e' (us @ p # vs)
              (snapshot_file (main (e\<lparr>post_ok := t\<rparr>) current_products f)))) =
            increased_stock (classify (load_known_products
              (snapshot_file (main (e\<lparr>post_ok := t\<rparr>) current_products f))) us) @
            increased_stock (classify (load_known_products
              (snapshot_file (main (e\<lparr>post_ok := t\<rparr>) current_products f))) vs)
        \<and> new_products (found (main e' (us @ p # vs)
              (snapshot_file (main (e\<lparr>post_ok := t\<rparr>) current_products f)))) =
            new_products (classify (load_known_products
              (snapshot_file (main (e\<lparr>post_ok := t\<rparr>) current_products f))) us) @
            new_products (classify (load_known_products
              (snapshot_file (main (e\<lparr>post_ok := t\<rparr>) current_products f))) vs))
   \<and> (distinct (map sku (filter (\<lambda>q. sku q \<noteq> []) current_products)) \<longrightarrow>
        events (found (main e' current_products
          (snapshot_file (main (e\<lparr>post_ok := t\<rparr>) current_products f)))) = [])"
proof -
  let ?e = "e\<lparr>post_ok := t\<rparr>"
  let ?F = "snapshot_file (main ?e current_products f)"
  let ?K = "load_known_products ?F"
  have attempts: "configured e \<longrightarrow>
      map fst (posted (main e current_products f)) = messages_of e (found (main e current_products f))"
    by (simp add: main_posts comp_def)
  have keys: "current_products \<noteq> [] \<longrightarrow> fst ` set ?K = sku ` set current_products - {[]}"
    by (simp add: main_saves_keys)
  have entry: "map_of ?K (sku q) = Some (dumped (mark (load_known_products f) q))"
    if "current_products = as @ q # bs" "sku q \<noteq> []" "sku q \<notin> sku ` set bs" for as q bs
    using that main_saves_last [of q bs ?e as f] by simp
  have rec: "(\<exists>s. map_of ?K (sku p) = Some s
             \<and> title s = title p \<and> sku s = sku p \<and> url s = url p
             \<and> stock_qty s = Some (stock_qty p) \<and> price s = price p
             \<and> image_url s = image_url p)
        \<and> found (main e' (us @ p # vs) ?F) =
            join (classify ?K us)
              (join \<lparr>restocked = [], increased_stock = [], new_products = [], visited = [p]\<rparr>
                 (classify ?K vs))"
    if split: "current_products = xs @ p # ys" "sku p \<noteq> []" "sku p \<notin> sku ` set ys"
  proof -
    have en: "map_of ?K (sku p) = Some (dumped (mark (load_known_products f) p))"
      using split by (rule entry)
    then have ne: "?K \<noteq> []" by auto
    have "found (main e' (us @ p # vs) ?F) = classify ?K (us @ p # vs)"
      using ne by (simp add: main_classifies)
    then have "found (main e' (us @ p # vs) ?F) =
            join (classify ?K us)
              (join \<lparr>restocked = [], increased_stock = [], new_products = [], visited = [p]\<rparr>
                 (classify ?K vs))"
      by (simp add: classify_mid saved_record_is_quiet [OF split(2) en])
    then show ?thesis
      using en by (simp add: dumped_fields mark_fields)
  qed
  have again: "events (found (main e' current_products ?F)) = []"
    if d: "distinct (map sku (filter (\<lambda>q. sku q \<noteq> []) current_products))"
  proof -
    have "\<forall>q\<in>set current_products. events (classify ?K [q]) = []"
    proof
      fix q assume q: "q \<in> set current_products"
      show "events (classify ?K [q]) = []"
      proof (cases "sku q = []")
        case True
        then show ?thesis by (simp add: classify_empty_sku events_def)
      next
        case False
        from q obtain as bs where cp: "current_products = as @ q # bs"
          by (auto simp: in_set_conv_decomp)
        have "sku q \<notin> sku ` set (filter (\<lambda>q. sku q \<noteq> []) bs)"
          using d False by (auto simp: cp)
        then have "sku q \<notin> sku ` set bs"
          using False by auto
        with cp False have "map_of ?K (sku q) = Some (dumped (mark (load_known_products f) q))"
          by (intro entry)
        with False show ?thesis
          by (simp add: saved_record_is_quiet events_def)
      qed
    qed
    then have "events (classify ?K current_products) = []"
      by (rule events_all_quiet)
    moreover have "found (main e' current_products ?F) = no_changes \<or>
        found (main e' current_products ?F) = classify ?K current_products"
      by (simp add: main_def Let_def)
    ultimately show ?thesis
      by (auto simp: events_def no_changes_def)
  qed
  show ?thesis
    using main_outcome_free [where e = e and t = t and current_products = current_products and f = f]
      attempts keys rec again
    by (simp add: join_def)
qed

theorem C9_failed_post_does_not_block_witness:
  "map snd (posted (main loud [sample ''A'' 5] (Content [(''A'', dumped (sample ''A'' 0))]))) = [False]
   \<and> fst ` set (load_known_products
        (snapshot_file (main loud [sample ''A'' 5] (Content [(''A'', dumped (sample ''A'' 0))]))))
       = {''A''}
   \<and> map_option stock_qty (map_of (load_known_products
        (snapshot_file (main loud [sample ''A'' 5] (Content [(''A'', dumped (sample ''A'' 0))])))) ''A'')
       = Some (Some 5)
   \<and> events (found (main loud [sample ''A'' 5]
        (snapshot_file (main loud [sample ''A'' 5] (Content [(''A'', dumped (sample ''A'' 0))]))))) = []"
  using C9_failed_post_does_not_block [where e = loud and t = "\<lambda>m. False"
      and current_products = "[sample ''A'' 5]" and f = "Content [(''A'', dumped (sample ''A'' 0))]"
      and p = "sample ''A'' 5" and xs = "[]" and ys = "[]" and e' = loud and us = "[]" and vs = "[]"]
  by (simp add: loud_def configured_def sample_def main_def Let_def classify_def classify_step_def
      no_changes_def get_stock_qty_def dumped_def send_discord_notification_def
      save_known_products_def products_dict_def mark_def events_def)

text \<open>
  C9 as stated fails: with the sku A fetched twice, first with 5 and then with 0 in stock,
  against a snapshot that has A out of stock, the cycle reports A as restocked, the post
  fails, the snapshot saved has A out of stock again, and the next cycle on the same fetch
  reports the same restock once more.
\<close>

theorem C9_repeated_sku_realerted:
  "restocked (found (main loud [sample ''A'' 5, sample ''A'' 0]
       (Content [(''A'', dumped (sample ''A'' 0))])))
     = [(sample ''A'' 5)\<lparr>old_stock := Some 0\<rparr>]
   \<and> map snd (posted (main loud [sample ''A'' 5, sample ''A'' 0]
       (Content [(''A'', dumped (sample ''A'' 0))]))) = [False]
   \<and> restocked (found (main loud [sample ''A'' 5, sample ''A'' 0]
       (snapshot_file (main loud [sample ''A'' 5, sample ''A'' 0]
          (Content [(''A'', dumped (sample ''A'' 0))])))))
     = [(sample ''A'' 5)\<lparr>old_stock := Some 0\<rparr>]"
  by (simp add: loud_def configured_def sample_def main_def Let_def classify_def classify_step_def
      no_changes_def get_stock_qty_def dumped_def send_discord_notification_def
      save_known_products_def products_dict_def)

end
